theory Spec2Isabelle
  imports Main
begin

section \<open>Strings of the search module\<close>

text \<open>
  The module \<^verbatim>\<open>static/js/search.js\<close> works on JavaScript strings. Here a string is a
  \<^typ>\<open>string\<close>, a list of 8-bit characters: the model covers the texts whose UTF-16 code
  units are all below 256 (ASCII and Latin-1). White space, lower case and the
  case-insensitive comparison of the regular expression engine are the restrictions of the
  ECMAScript definitions to that range.
\<close>

definition isWhiteSpace :: "char \<Rightarrow> bool" where
  \<comment> \<open>what \<^verbatim>\<open>\s\<close> and \<^verbatim>\<open>trim()\<close> treat as white space: TAB, LF, VT, FF, CR, SP, NBSP\<close>
  "isWhiteSpace c = (c = CHR 0x09 \<or> c = CHR 0x0A \<or> c = CHR 0x0B \<or> c = CHR 0x0C \<or> c = CHR 0x0D
      \<or> c = CHR 0x20 \<or> c = CHR 0xA0)"

definition isLineTerminator :: "char \<Rightarrow> bool" where
  "isLineTerminator c = (c = CHR 0x0A \<or> c = CHR 0x0D)"

fun toLowerCase_char :: "char \<Rightarrow> char" where
  "toLowerCase_char (Char b0 b1 b2 b3 b4 b5 b6 b7) =
     (let n = (of_char (Char b0 b1 b2 b3 b4 b5 b6 b7) :: nat) in
      if (65 \<le> n \<and> n \<le> 90) \<or> (192 \<le> n \<and> n \<le> 222 \<and> n \<noteq> 215)
      then Char b0 b1 b2 b3 b4 True b6 b7 else Char b0 b1 b2 b3 b4 b5 b6 b7)"

definition toLowerCase :: "string \<Rightarrow> string" where
  "toLowerCase s = map toLowerCase_char s"

fun canonicalize :: "char \<Rightarrow> char" where
  \<comment> \<open>the case folding of the \<^verbatim>\<open>i\<close> flag: the upper case of a letter, where that is one
      code unit of the range; every other character is left as it is\<close>
  "canonicalize (Char b0 b1 b2 b3 b4 b5 b6 b7) =
     (let n = (of_char (Char b0 b1 b2 b3 b4 b5 b6 b7) :: nat) in
      if (97 \<le> n \<and> n \<le> 122) \<or> (224 \<le> n \<and> n \<le> 254 \<and> n \<noteq> 247)
      then Char b0 b1 b2 b3 b4 False b6 b7 else Char b0 b1 b2 b3 b4 b5 b6 b7)"

definition trim :: "string \<Rightarrow> string" where
  "trim s = rev (dropWhile isWhiteSpace (rev (dropWhile isWhiteSpace s)))"

fun split_ws_from :: "string \<Rightarrow> string \<Rightarrow> bool \<Rightarrow> string list" where
  \<comment> \<open>\<^verbatim>\<open>split(/\s+/)\<close>: the pieces between the maximal runs of white space; \<open>cur\<close> is the
      piece being read (reversed), \<open>in_sep\<close> says that the last character was white space\<close>
  "split_ws_from [] cur in_sep = [rev cur]"
| "split_ws_from (c # cs) cur in_sep =
     (if isWhiteSpace c then (if in_sep then split_ws_from cs cur True
                              else rev cur # split_ws_from cs [] True)
      else split_ws_from cs (c # cur) False)"

definition split_ws :: "string \<Rightarrow> string list" where
  "split_ws s = split_ws_from s [] False"

fun startsWith :: "string \<Rightarrow> string \<Rightarrow> bool" where
  "startsWith s [] = True"
| "startsWith [] (d # t) = False"
| "startsWith (c # s) (d # t) = (c = d \<and> startsWith s t)"

fun js_includes :: "string \<Rightarrow> string \<Rightarrow> bool" where
  \<comment> \<open>\<^verbatim>\<open>s.includes(t)\<close>\<close>
  "js_includes [] t = (t = [])"
| "js_includes (c # s) t = (startsWith (c # s) t \<or> js_includes s t)"

section \<open>The regular expressions of the platform\<close>

text \<open>
  \<^verbatim>\<open>new RegExp(pattern, flags)\<close> is the browser's, not the module's. The model implements a
  fragment of the ECMAScript pattern language: pattern characters, \<^verbatim>\<open>.\<close>, a backslash
  before a syntax character, capturing groups, \<^verbatim>\<open>|\<close>, the greedy quantifiers \<^verbatim>\<open>*\<close>
  \<^verbatim>\<open>+\<close> \<^verbatim>\<open>?\<close>, and the assertions \<^verbatim>\<open>^\<close> and \<^verbatim>\<open>$\<close>. A pattern that is
  malformed is a \<open>SyntaxError\<close>, as in the browser. A pattern that uses anything else
  (character classes, braces, lazy quantifiers, \<^verbatim>\<open>(?\<close> groups, the other escapes) is
  \<open>OutsideFragment\<close>: the model says nothing about it. \<open>TypeError\<close> is what calling
  \<^verbatim>\<open>.map\<close> on a value that is not an array raises.
\<close>

datatype js_error = SyntaxError | TypeError | OutsideFragment

datatype rx =
    REmpty
  | RChar char
  | RAny
  | RStart
  | REnd
  | RGroup rx
  | RSeq rx rx
  | RAlt rx rx
  | RStar rx
  | ROpt rx

definition isSyntaxCharacter :: "char \<Rightarrow> bool" where
  \<comment> \<open>\<^verbatim>\<open>^ $ \ . * + ? ( ) [ ] { } |\<close>\<close>
  "isSyntaxCharacter c = (c = CHR ''^'' \<or> c = CHR ''$'' \<or> c = CHR 0x5C \<or> c = CHR ''.''
      \<or> c = CHR ''*'' \<or> c = CHR ''+'' \<or> c = CHR ''?'' \<or> c = CHR ''('' \<or> c = CHR '')''
      \<or> c = CHR ''['' \<or> c = CHR '']'' \<or> c = CHR ''{'' \<or> c = CHR ''}'' \<or> c = CHR ''|'')"

fun mk_seq :: "rx list \<Rightarrow> rx" where
  "mk_seq [] = REmpty"
| "mk_seq [t] = t"
| "mk_seq (t # ts) = RSeq t (mk_seq ts)"

fun mk_alt :: "rx list \<Rightarrow> rx" where
  "mk_alt [] = REmpty"
| "mk_alt [a] = a"
| "mk_alt (a # as) = RAlt a (mk_alt as)"

text \<open>
  A frame of the parser is a disjunction being read: its finished alternatives and the
  terms of the alternative in progress, both latest first.
\<close>

type_synonym frame = "rx list \<times> rx list"

definition close_frame :: "frame \<Rightarrow> rx" where
  "close_frame fr = mk_alt (rev (mk_seq (rev (snd fr)) # fst fr))"

datatype qstate = NoAtom | AfterAtom | AfterQuantifier

definition quantify :: "char \<Rightarrow> rx \<Rightarrow> rx" where
  "quantify c t = (if c = CHR ''*'' then RStar t
                   else if c = CHR ''+'' then RSeq t (RStar t)
                   else ROpt t)"

fun parse_pattern :: "string \<Rightarrow> frame list \<Rightarrow> frame \<Rightarrow> qstate \<Rightarrow> js_error + rx" where
  "parse_pattern [] stack fr q =
     (if stack = [] then Inr (close_frame fr) else Inl SyntaxError)"
| "parse_pattern (c # cs) stack (alts, ts) q =
     (if c = CHR ''('' then
        (if startsWith cs ''?'' then Inl OutsideFragment
         else parse_pattern cs ((alts, ts) # stack) ([], []) NoAtom)
      else if c = CHR '')'' then
        (case stack of
           [] \<Rightarrow> Inl SyntaxError
         | (palts, pts) # stack' \<Rightarrow>
             parse_pattern cs stack' (palts, RGroup (close_frame (alts, ts)) # pts) AfterAtom)
      else if c = CHR ''|'' then
        parse_pattern cs stack (mk_seq (rev ts) # alts, []) NoAtom
      else if c = CHR ''*'' \<or> c = CHR ''+'' \<or> c = CHR ''?'' then
        (case q of
           AfterAtom \<Rightarrow>
             (case ts of
                [] \<Rightarrow> Inl SyntaxError
              | t # ts' \<Rightarrow> parse_pattern cs stack (alts, quantify c t # ts') AfterQuantifier)
         | AfterQuantifier \<Rightarrow> (if c = CHR ''?'' then Inl OutsideFragment else Inl SyntaxError)
         | NoAtom \<Rightarrow> Inl SyntaxError)
      else if c = CHR 0x5C then
        (case cs of
           [] \<Rightarrow> Inl SyntaxError
         | d # ds \<Rightarrow>
             (if isSyntaxCharacter d then parse_pattern ds stack (alts, RChar d # ts) AfterAtom
              else Inl OutsideFragment))
      else if c = CHR ''.'' then parse_pattern cs stack (alts, RAny # ts) AfterAtom
      else if c = CHR ''^'' then parse_pattern cs stack (alts, RStart # ts) NoAtom
      else if c = CHR ''$'' then parse_pattern cs stack (alts, REnd # ts) NoAtom
      else if c = CHR ''['' \<or> c = CHR '']'' \<or> c = CHR ''{'' \<or> c = CHR ''}'' then Inl OutsideFragment
      else parse_pattern cs stack (alts, RChar c # ts) AfterAtom)"

definition js_RegExp :: "string \<Rightarrow> js_error + rx" where
  \<comment> \<open>\<^verbatim>\<open>new RegExp(pattern, flags)\<close>; the flags are given to the matching functions\<close>
  "js_RegExp pattern = parse_pattern pattern [] ([], []) NoAtom"

text \<open>
  The matcher lists, in the order in which backtracking tries them, the rests of the input
  that a pattern can leave. \<open>ic\<close> is the \<^verbatim>\<open>i\<close> flag and \<open>n\<close> the length of the whole
  input, so that \<^verbatim>\<open>^\<close> sees whether it stands at the start. An iteration of a quantifier
  that consumes nothing is rejected, as ECMAScript's RepeatMatcher does.
\<close>

fun rx_match :: "bool \<Rightarrow> nat \<Rightarrow> rx \<Rightarrow> string \<Rightarrow> string list" where
  "rx_match ic n REmpty s = [s]"
| "rx_match ic n (RChar c) s =
     (case s of
        [] \<Rightarrow> []
      | d # s' \<Rightarrow> (if (if ic then canonicalize d = canonicalize c else d = c) then [s'] else []))"
| "rx_match ic n RAny s =
     (case s of [] \<Rightarrow> [] | d # s' \<Rightarrow> (if isLineTerminator d then [] else [s']))"
| "rx_match ic n RStart s = (if length s = n then [s] else [])"
| "rx_match ic n REnd s = (if s = [] then [s] else [])"
| "rx_match ic n (RGroup r) s = rx_match ic n r s"
| "rx_match ic n (RSeq r1 r2) s = concat (map (rx_match ic n r2) (rx_match ic n r1 s))"
| "rx_match ic n (RAlt r1 r2) s = rx_match ic n r1 s @ rx_match ic n r2 s"
| "rx_match ic n (RStar r) s =
     concat (map (\<lambda>s'. if length s' < length s then rx_match ic n (RStar r) s' else [])
                 (rx_match ic n r s)) @ [s]"
| "rx_match ic n (ROpt r) s = filter (\<lambda>s'. length s' < length s) (rx_match ic n r s) @ [s]"

text \<open>
  The matches of a global (\<^verbatim>\<open>g\<close>) regular expression in a text, from left to right:
  after a match the search goes on at its end, after an empty match one character further.
  \<open>s\<close> is the text from \<^verbatim>\<open>lastIndex\<close> on.
\<close>

fun global_matches :: "bool \<Rightarrow> nat \<Rightarrow> rx \<Rightarrow> string \<Rightarrow> string list" where
  "global_matches ic n r s =
     (case rx_match ic n r s of
        [] \<Rightarrow> (case s of [] \<Rightarrow> [] | c # s' \<Rightarrow> global_matches ic n r s')
      | e # es \<Rightarrow>
          (if length e < length s
           then take (length s - length e) s # global_matches ic n r e
           else [] # (case s of [] \<Rightarrow> [] | c # s' \<Rightarrow> global_matches ic n r s')))"

declare global_matches.simps [simp del]

definition js_match :: "string \<Rightarrow> rx \<Rightarrow> string list option" where
  \<comment> \<open>\<^verbatim>\<open>text.match(regex)\<close> for a regex with the flag \<^verbatim>\<open>g\<close>: \<open>None\<close> is \<^verbatim>\<open>null\<close>\<close>
  "js_match text r =
     (case global_matches False (length text) r text of [] \<Rightarrow> None | m # ms \<Rightarrow> Some (m # ms))"

fun replace_matches :: "nat \<Rightarrow> rx \<Rightarrow> string \<Rightarrow> string \<Rightarrow> string \<Rightarrow> string" where
  \<comment> \<open>the global, case-insensitive replacement of every match \<open>m\<close> by \<open>pre @ m @ post\<close>\<close>
  "replace_matches n r pre post s =
     (case rx_match True n r s of
        [] \<Rightarrow> (case s of [] \<Rightarrow> [] | c # s' \<Rightarrow> c # replace_matches n r pre post s')
      | e # es \<Rightarrow>
          (if length e < length s
           then pre @ take (length s - length e) s @ post @ replace_matches n r pre post e
           else pre @ post @
                (case s of [] \<Rightarrow> [] | c # s' \<Rightarrow> c # replace_matches n r pre post s')))"

declare replace_matches.simps [simp del]

definition js_replace_group1 :: "string \<Rightarrow> rx \<Rightarrow> string \<Rightarrow> string \<Rightarrow> js_error + string" where
  \<comment> \<open>\<^verbatim>\<open>text.replace(regex, pre + '$1' + post)\<close> for a regex with the flags \<^verbatim>\<open>gi\<close>.
      \<^verbatim>\<open>$1\<close> is the text of the first group: the model covers the patterns that are one
      group as a whole, where that is the text of the match\<close>
  "js_replace_group1 text regex pre post =
     (case regex of
        RGroup r \<Rightarrow> Inr (replace_matches (length text) regex pre post text)
      | _ \<Rightarrow> Inl OutsideFragment)"

section \<open>The state of the module\<close>

text \<open>
  An index entry is an object with four text fields; a scored result is a fresh object with
  the same fields and a score. Arrays are objects that the code reaches by reference
  (\<^verbatim>\<open>sort\<close> works in place), so the state holds a store of arrays; \<open>searchIndex\<close> is
  \<^verbatim>\<open>null\<close> (\<open>None\<close>) or the reference of the index array. \<open>requests\<close> counts the
  network requests that \<^verbatim>\<open>fetch\<close> has issued and \<open>console_errors\<close> the calls of
  \<^verbatim>\<open>console.error\<close>.
\<close>

record IndexEntry =
  title :: string
  content :: string
  url :: string
  category :: string

record ScoredResult = IndexEntry +
  score :: int

datatype js_array = EntryArray "IndexEntry list" | ResultArray "ScoredResult list"

type_synonym ref = nat

record module_state =
  searchIndex :: "ref option"
  heap :: "ref \<Rightarrow> js_array option"
  nextRef :: ref
  requests :: nat
  console_errors :: nat

definition alloc :: "js_array \<Rightarrow> module_state \<Rightarrow> ref \<times> module_state" where
  "alloc a st = (nextRef st, st\<lparr>heap := (heap st)(nextRef st \<mapsto> a), nextRef := Suc (nextRef st)\<rparr>)"

section \<open>loadSearchIndex\<close>

text \<open>
  What the network and the JSON parser answer when \<^verbatim>\<open>fetch('/search-index.json')\<close> and
  \<^verbatim>\<open>response.json()\<close> run is an input of the model. The document is an array of entries
  (the interface of the site's build); both awaits are taken in one step.
\<close>

datatype fetch_outcome = FetchFailed | ParseFailed | Parsed "IndexEntry list"

definition loadSearchIndex :: "module_state \<Rightarrow> fetch_outcome \<Rightarrow> ref \<times> module_state" where
  "loadSearchIndex st net =
     (case searchIndex st of
        Some idx \<Rightarrow> (idx, st)
      | None \<Rightarrow>
          (let st1 = st\<lparr>requests := Suc (requests st)\<rparr> in
           case net of
             Parsed items \<Rightarrow>
               (let (a, st2) = alloc (EntryArray items) st1
                in (a, st2\<lparr>searchIndex := Some a\<rparr>))
           | _ \<Rightarrow> alloc (EntryArray []) (st1\<lparr>console_errors := Suc (console_errors st1)\<rparr>)))"

section \<open>highlightText and escapeRegex\<close>

definition escapeRegex :: "string \<Rightarrow> string" where
  \<comment> \<open>\<^verbatim>\<open>str.replace(/[.*+?^${}()|[\]\\]/g, '\\$&')\<close>\<close>
  "escapeRegex str = concat (map (\<lambda>c. if isSyntaxCharacter c then [CHR 0x5C, c] else [c]) str)"

definition mark_open :: string where
  "mark_open = ''<mark class=\"search-highlight\">''"

definition mark_close :: string where
  "mark_close = ''</mark>''"

fun highlight_terms :: "string list \<Rightarrow> string \<Rightarrow> js_error + string" where
  \<comment> \<open>the \<^verbatim>\<open>terms.forEach\<close> of \<^verbatim>\<open>highlightText\<close>\<close>
  "highlight_terms [] highlighted = Inr highlighted"
| "highlight_terms (term # terms) highlighted =
     (case js_RegExp (''('' @ escapeRegex term @ '')'') of
        Inl e \<Rightarrow> Inl e
      | Inr regex \<Rightarrow>
          (case js_replace_group1 highlighted regex mark_open mark_close of
             Inl e \<Rightarrow> Inl e
           | Inr h \<Rightarrow> highlight_terms terms h))"

definition highlightText :: "string \<Rightarrow> string \<Rightarrow> js_error + string" where
  "highlightText text query =
     (if query = [] then Inr text
      else let terms = filter (\<lambda>term. length term > 0) (split_ws (toLowerCase query))
           in highlight_terms terms text)"

section \<open>search\<close>

fun score_terms :: "string \<Rightarrow> string \<Rightarrow> string list \<Rightarrow> int \<Rightarrow> js_error + int" where
  \<comment> \<open>the \<^verbatim>\<open>terms.forEach\<close> of \<^verbatim>\<open>search\<close>; \<open>sc\<close> is the variable \<^verbatim>\<open>score\<close>\<close>
  "score_terms titleLower contentLower [] sc = Inr sc"
| "score_terms titleLower contentLower (term # terms) sc =
     (let sc1 = (if js_includes titleLower term
                 then (if titleLower = term then sc + 10 + 20 else sc + 10)
                 else sc)
      in case js_RegExp term of
           Inl e \<Rightarrow> Inl e
         | Inr regex \<Rightarrow>
             (let contentMatches =
                    int (length (case js_match contentLower regex of None \<Rightarrow> [] | Some ms \<Rightarrow> ms))
              in score_terms titleLower contentLower terms (sc1 + contentMatches)))"

definition score_item :: "string list \<Rightarrow> IndexEntry \<Rightarrow> js_error + ScoredResult" where
  "score_item terms item =
     (let titleLower = toLowerCase (title item);
          contentLower = toLowerCase (content item)
      in case score_terms titleLower contentLower terms 0 of
           Inl e \<Rightarrow> Inl e
         | Inr s \<Rightarrow> Inr \<lparr>title = title item, content = content item, url = url item,
                          category = category item, score = s\<rparr>)"

fun map_items :: "string list \<Rightarrow> IndexEntry list \<Rightarrow> js_error + ScoredResult list" where
  \<comment> \<open>\<^verbatim>\<open>searchIndex.map(item => ...)\<close>: an exception in the callback ends the call\<close>
  "map_items terms [] = Inr []"
| "map_items terms (item # items) =
     (case score_item terms item of
        Inl e \<Rightarrow> Inl e
      | Inr r \<Rightarrow> (case map_items terms items of Inl e \<Rightarrow> Inl e | Inr rs \<Rightarrow> Inr (r # rs)))"

fun insert_by :: "('a \<Rightarrow> 'a \<Rightarrow> int) \<Rightarrow> 'a \<Rightarrow> 'a list \<Rightarrow> 'a list" where
  "insert_by cmp x [] = [x]"
| "insert_by cmp x (y # ys) = (if cmp x y \<le> 0 then x # y # ys else y # insert_by cmp x ys)"

definition js_sort :: "('a \<Rightarrow> 'a \<Rightarrow> int) \<Rightarrow> 'a list \<Rightarrow> 'a list" where
  \<comment> \<open>\<^verbatim>\<open>Array.prototype.sort\<close> with a comparator: \<open>x\<close> comes before \<open>y\<close> when
      \<open>cmp x y\<close> is negative, and elements that compare equal keep their order\<close>
  "js_sort cmp xs = foldr (insert_by cmp) xs []"

definition sort_in_place :: "(ScoredResult \<Rightarrow> ScoredResult \<Rightarrow> int) \<Rightarrow> ref \<Rightarrow> module_state \<Rightarrow> module_state" where
  \<comment> \<open>\<^verbatim>\<open>.sort(cmp)\<close> reorders the array where it is\<close>
  "sort_in_place cmp a st =
     (case heap st a of
        Some (ResultArray rs) \<Rightarrow> st\<lparr>heap := (heap st)(a \<mapsto> ResultArray (js_sort cmp rs))\<rparr>
      | _ \<Rightarrow> st)"

definition slice0 :: "'a list \<Rightarrow> int \<Rightarrow> 'a list" where
  \<comment> \<open>\<^verbatim>\<open>.slice(0, limit)\<close>: a negative end counts from the end of the array\<close>
  "slice0 xs limit =
     take (if limit < 0 then nat (int (length xs) + limit) else nat limit) xs"

text \<open>
  \<^verbatim>\<open>search(query, limit)\<close>, with the limit given (the callers pass 5 and 20). The arrays
  of \<^verbatim>\<open>map\<close>, \<^verbatim>\<open>filter\<close> and \<^verbatim>\<open>slice\<close> are new arrays of the store; \<^verbatim>\<open>sort\<close>
  reorders the array of \<^verbatim>\<open>filter\<close>. An exception leaves the store as it was. When
  \<open>searchIndex\<close> refers to something that is not an array of entries, \<^verbatim>\<open>.map\<close> is
  not a function of it: a TypeError (after \<^verbatim>\<open>loadSearchIndex\<close> this does not arise).
\<close>

definition search :: "module_state \<Rightarrow> string \<Rightarrow> int \<Rightarrow> (js_error + ref) \<times> module_state" where
  "search st query limit =
     (if searchIndex st = None \<or> query = [] \<or> length (trim query) < 2
      then (let (a, st1) = alloc (ResultArray []) st in (Inr a, st1))
      else
        let queryLower = toLowerCase query;
            terms = filter (\<lambda>term. length term > 0) (split_ws queryLower)
        in case searchIndex st of
             None \<Rightarrow> (Inl TypeError, st)
           | Some idx \<Rightarrow>
               (case heap st idx of
                  Some (EntryArray items) \<Rightarrow>
                    (case map_items terms items of
                       Inl e \<Rightarrow> (Inl e, st)
                     | Inr scored \<Rightarrow>
                         (let (a1, st1) = alloc (ResultArray scored) st;
                              (a2, st2) = alloc (ResultArray (filter (\<lambda>item. score item > 0) scored)) st1;
                              st3 = sort_in_place (\<lambda>a b. score b - score a) a2 st2;
                              ordered = (case heap st3 a2 of Some (ResultArray rs) \<Rightarrow> rs | _ \<Rightarrow> []);
                              (a3, st4) = alloc (ResultArray (slice0 ordered limit)) st3
                          in (Inr a3, st4)))
                | _ \<Rightarrow> (Inl TypeError, st)))"

definition results_of :: "module_state \<Rightarrow> ref \<Rightarrow> ScoredResult list" where
  \<comment> \<open>the elements of the array that a call of \<^verbatim>\<open>search\<close> returned\<close>
  "results_of st a = (case heap st a of Some (ResultArray rs) \<Rightarrow> rs | _ \<Rightarrow> [])"

subsection \<open>search over any regular expression engine\<close>

text \<open>
  \<^verbatim>\<open>search\<close> once more, with the platform's regular expressions as a parameter, so that
  what is proved of it holds for the whole pattern language of the browser and not only
  for the fragment above. An engine gives, for a pattern, what
  \<^verbatim>\<open>new RegExp(pattern, 'g')\<close> does: it throws, or it returns a regular expression, which is
  given by what \<^verbatim>\<open>text.match(regex)\<close> returns for every text (\<open>None\<close> is \<^verbatim>\<open>null\<close>).
  \<open>js_engine\<close> is the engine of the fragment, and \<open>search\<close> is \<open>search_with js_engine\<close>.
\<close>

type_synonym regexp_engine = "string \<Rightarrow> js_error + (string \<Rightarrow> string list option)"

definition js_engine :: regexp_engine where
  "js_engine pattern =
     (case js_RegExp pattern of Inl e \<Rightarrow> Inl e | Inr r \<Rightarrow> Inr (\<lambda>text. js_match text r))"

definition accepts :: "regexp_engine \<Rightarrow> string \<Rightarrow> bool" where
  \<comment> \<open>\<^verbatim>\<open>new RegExp(pattern, 'g')\<close> does not throw\<close>
  "accepts engine pattern = (case engine pattern of Inl e \<Rightarrow> False | Inr regex \<Rightarrow> True)"

fun score_terms_with ::
  "regexp_engine \<Rightarrow> string \<Rightarrow> string \<Rightarrow> string list \<Rightarrow> int \<Rightarrow> js_error + int" where
  "score_terms_with engine titleLower contentLower [] sc = Inr sc"
| "score_terms_with engine titleLower contentLower (term # terms) sc =
     (let sc1 = (if js_includes titleLower term
                 then (if titleLower = term then sc + 10 + 20 else sc + 10)
                 else sc)
      in case engine term of
           Inl e \<Rightarrow> Inl e
         | Inr regex \<Rightarrow>
             (let contentMatches =
                    int (length (case regex contentLower of None \<Rightarrow> [] | Some ms \<Rightarrow> ms))
              in score_terms_with engine titleLower contentLower terms (sc1 + contentMatches)))"

definition score_item_with :: "regexp_engine \<Rightarrow> string list \<Rightarrow> IndexEntry \<Rightarrow> js_error + ScoredResult" where
  "score_item_with engine terms item =
     (let titleLower = toLowerCase (title item);
          contentLower = toLowerCase (content item)
      in case score_terms_with engine titleLower contentLower terms 0 of
           Inl e \<Rightarrow> Inl e
         | Inr s \<Rightarrow> Inr \<lparr>title = title item, content = content item, url = url item,
                          category = category item, score = s\<rparr>)"

fun map_items_with ::
  "regexp_engine \<Rightarrow> string list \<Rightarrow> IndexEntry list \<Rightarrow> js_error + ScoredResult list" where
  "map_items_with engine terms [] = Inr []"
| "map_items_with engine terms (item # items) =
     (case score_item_with engine terms item of
        Inl e \<Rightarrow> Inl e
      | Inr r \<Rightarrow>
          (case map_items_with engine terms items of Inl e \<Rightarrow> Inl e | Inr rs \<Rightarrow> Inr (r # rs)))"

definition search_with ::
  "regexp_engine \<Rightarrow> module_state \<Rightarrow> string \<Rightarrow> int \<Rightarrow> (js_error + ref) \<times> module_state" where
  "search_with engine st query limit =
     (if searchIndex st = None \<or> query = [] \<or> length (trim query) < 2
      then (let (a, st1) = alloc (ResultArray []) st in (Inr a, st1))
      else
        let queryLower = toLowerCase query;
            terms = filter (\<lambda>term. length term > 0) (split_ws queryLower)
        in case searchIndex st of
             None \<Rightarrow> (Inl TypeError, st)
           | Some idx \<Rightarrow>
               (case heap st idx of
                  Some (EntryArray items) \<Rightarrow>
                    (case map_items_with engine terms items of
                       Inl e \<Rightarrow> (Inl e, st)
                     | Inr scored \<Rightarrow>
                         (let (a1, st1) = alloc (ResultArray scored) st;
                              (a2, st2) = alloc (ResultArray (filter (\<lambda>item. score item > 0) scored)) st1;
                              st3 = sort_in_place (\<lambda>a b. score b - score a) a2 st2;
                              ordered = (case heap st3 a2 of Some (ResultArray rs) \<Rightarrow> rs | _ \<Rightarrow> []);
                              (a3, st4) = alloc (ResultArray (slice0 ordered limit)) st3
                          in (Inr a3, st4)))
                | _ \<Rightarrow> (Inl TypeError, st)))"

definition query_terms :: "string \<Rightarrow> string list" where
  \<comment> \<open>the terms of a query, as \<^verbatim>\<open>search\<close> computes them\<close>
  "query_terms query = filter (\<lambda>term. length term > 0) (split_ws (toLowerCase query))"

section \<open>The minified variant of the module\<close>

text \<open>
  The file holds the module a second time, minified. Its \<^verbatim>\<open>highlightText\<close>,
  \<^verbatim>\<open>escapeRegex\<close> and \<^verbatim>\<open>search\<close> are translated here from the minified text.
\<close>

definition escapeRegex_min :: "string \<Rightarrow> string" where
  "escapeRegex_min str = concat (map (\<lambda>c. if isSyntaxCharacter c then [CHR 0x5C, c] else [c]) str)"

fun highlight_terms_min :: "string list \<Rightarrow> string \<Rightarrow> js_error + string" where
  "highlight_terms_min [] highlighted = Inr highlighted"
| "highlight_terms_min (term # terms) highlighted =
     (case js_RegExp (''('' @ escapeRegex_min term @ '')'') of
        Inl e \<Rightarrow> Inl e
      | Inr regex \<Rightarrow>
          (case js_replace_group1 highlighted regex ''<mark class=\"search-highlight\">'' ''</mark>'' of
             Inl e \<Rightarrow> Inl e
           | Inr h \<Rightarrow> highlight_terms_min terms h))"

definition highlightText_min :: "string \<Rightarrow> string \<Rightarrow> js_error + string" where
  "highlightText_min text query =
     (if query = [] then Inr text
      else highlight_terms_min (filter (\<lambda>term. length term > 0) (split_ws (toLowerCase query))) text)"

fun score_terms_min :: "string \<Rightarrow> string \<Rightarrow> string list \<Rightarrow> int \<Rightarrow> js_error + int" where
  "score_terms_min titleLower contentLower [] sc = Inr sc"
| "score_terms_min titleLower contentLower (term # terms) sc =
     (let sc1 = (if js_includes titleLower term
                 then (if titleLower = term then sc + 10 + 20 else sc + 10)
                 else sc)
      in case js_RegExp term of
           Inl e \<Rightarrow> Inl e
         | Inr regex \<Rightarrow>
             score_terms_min titleLower contentLower terms
               (sc1 + int (length (case js_match contentLower regex of None \<Rightarrow> [] | Some ms \<Rightarrow> ms))))"

fun map_items_min :: "string list \<Rightarrow> IndexEntry list \<Rightarrow> js_error + ScoredResult list" where
  "map_items_min terms [] = Inr []"
| "map_items_min terms (item # items) =
     (case score_terms_min (toLowerCase (title item)) (toLowerCase (content item)) terms 0 of
        Inl e \<Rightarrow> Inl e
      | Inr s \<Rightarrow>
          (case map_items_min terms items of
             Inl e \<Rightarrow> Inl e
           | Inr rs \<Rightarrow> Inr (\<lparr>title = title item, content = content item, url = url item,
                               category = category item, score = s\<rparr> # rs)))"

definition search_min :: "module_state \<Rightarrow> string \<Rightarrow> int \<Rightarrow> (js_error + ref) \<times> module_state" where
  "search_min st query limit =
     (if searchIndex st = None \<or> query = [] \<or> length (trim query) < 2
      then (let (a, st1) = alloc (ResultArray []) st in (Inr a, st1))
      else
        case searchIndex st of
          None \<Rightarrow> (Inl TypeError, st)
        | Some idx \<Rightarrow>
            (case heap st idx of
               Some (EntryArray items) \<Rightarrow>
                 (case map_items_min (filter (\<lambda>term. length term > 0) (split_ws (toLowerCase query))) items of
                    Inl e \<Rightarrow> (Inl e, st)
                  | Inr scored \<Rightarrow>
                      (let (a1, st1) = alloc (ResultArray scored) st;
                           (a2, st2) = alloc (ResultArray (filter (\<lambda>item. score item > 0) scored)) st1;
                           st3 = sort_in_place (\<lambda>a b. score b - score a) a2 st2;
                           ordered = (case heap st3 a2 of Some (ResultArray rs) \<Rightarrow> rs | _ \<Rightarrow> []);
                           (a3, st4) = alloc (ResultArray (slice0 ordered limit)) st3
                       in (Inr a3, st4)))
             | _ \<Rightarrow> (Inl TypeError, st)))"

section \<open>The input controllers\<close>

text \<open>
  The controllers register listeners on the two input fields and on the document. A page
  is the registry of listeners, the pending debounce timer and which of the two fields
  exist. Dispatching an event runs the listeners registered for its target and type, in
  the order of registration, and removes those registered with \<^verbatim>\<open>{once: true}\<close>. What a
  handler does is recorded as a list of actions.
\<close>

datatype target = QuickSearch | SearchInput | Document

datatype event_type = TFocus | TInput | TClick | TKeydown

datatype handler = LoadOnFocus | QuickInput | QuickClick | QuickKeydown | FullInput

datatype action =
    LoadSearchIndex
  | ClearTimeout
  | SetTimeout
  | HideQuickResults
  | ShowFullHint
  | RunSearch string int
  | RenderQuick
  | RenderFull
  | NavigateToFirstResult

record listener =
  l_target :: target
  l_type :: event_type
  l_handler :: handler
  l_once :: bool

datatype task = QuickTask string | FullTask string

record page =
  has_quick_search :: bool
  has_search_input :: bool
  listeners :: "listener list"
  searchTimeout :: "task option"
  result_item_rendered :: bool

text \<open>
  The events of a session: a focus, input or keydown event on a field (with the field's
  value or the key), a click (\<open>True\<close> when its target is outside both the quick-search
  field and its results), and the firing of the pending timer. A task is what the timer
  set by an input handler will run: load the index, search with the field's limit, render.
  The call of \<^verbatim>\<open>search\<close> in that callback may throw, and then the callback ends without
  rendering: whether the call returns is given with the event (\<open>TimerFired True\<close> when
  it does). The containers of the results are taken to exist, and
  \<open>result_item_rendered\<close> says whether the container of the quick search holds an element
  of class \<^verbatim>\<open>search-result-item\<close>: both branches of \<^verbatim>\<open>renderQuickSearchResults\<close> put
  one there, and hiding the container leaves it there.
\<close>

datatype event =
    Focus target
  | Input target string
  | Click bool
  | Keydown target string
  | TimerFired bool

fun event_target :: "event \<Rightarrow> target option" where
  "event_target (Focus t) = Some t"
| "event_target (Input t v) = Some t"
| "event_target (Click outside) = Some Document"
| "event_target (Keydown t k) = Some t"
| "event_target (TimerFired returns) = None"

fun event_kind :: "event \<Rightarrow> event_type option" where
  "event_kind (Focus t) = Some TFocus"
| "event_kind (Input t v) = Some TInput"
| "event_kind (Click outside) = Some TClick"
| "event_kind (Keydown t k) = Some TKeydown"
| "event_kind (TimerFired returns) = None"

fun event_value :: "event \<Rightarrow> string" where
  "event_value (Input t v) = v"
| "event_value (Keydown t k) = k"
| "event_value e = []"

definition addEventListener :: "target \<Rightarrow> event_type \<Rightarrow> handler \<Rightarrow> bool \<Rightarrow> page \<Rightarrow> page" where
  "addEventListener t ty h once p =
     p\<lparr>listeners := listeners p @ [\<lparr>l_target = t, l_type = ty, l_handler = h, l_once = once\<rparr>]\<rparr>"

definition setupQuickSearch :: "page \<Rightarrow> page" where
  \<comment> \<open>the readable variant: listeners for input, click and keydown\<close>
  "setupQuickSearch p =
     (if \<not> has_quick_search p then p
      else addEventListener QuickSearch TKeydown QuickKeydown False
             (addEventListener Document TClick QuickClick False
               (addEventListener QuickSearch TInput QuickInput False p)))"

definition setupFullSearch :: "page \<Rightarrow> page" where
  "setupFullSearch p =
     (if \<not> has_search_input p then p
      else addEventListener SearchInput TInput FullInput False p)"

definition setupQuickSearch_min :: "page \<Rightarrow> page" where
  \<comment> \<open>the minified variant: a focus listener, registered once, comes first\<close>
  "setupQuickSearch_min p =
     (if \<not> has_quick_search p then p
      else addEventListener QuickSearch TKeydown QuickKeydown False
             (addEventListener Document TClick QuickClick False
               (addEventListener QuickSearch TInput QuickInput False
                 (addEventListener QuickSearch TFocus LoadOnFocus True p))))"

definition setupFullSearch_min :: "page \<Rightarrow> page" where
  "setupFullSearch_min p =
     (if \<not> has_search_input p then p
      else addEventListener SearchInput TInput FullInput False
             (addEventListener SearchInput TFocus LoadOnFocus True p))"

definition onDOMContentLoaded :: "page \<Rightarrow> action list \<times> page" where
  \<comment> \<open>the readable variant sets the controllers up and preloads the index\<close>
  "onDOMContentLoaded p = ([LoadSearchIndex], setupFullSearch (setupQuickSearch p))"

definition onDOMContentLoaded_min :: "page \<Rightarrow> action list \<times> page" where
  \<comment> \<open>the minified variant only sets the controllers up\<close>
  "onDOMContentLoaded_min p = ([], setupFullSearch_min (setupQuickSearch_min p))"

fun run_handler :: "handler \<Rightarrow> event \<Rightarrow> page \<Rightarrow> action list \<times> page" where
  "run_handler LoadOnFocus e p = ([LoadSearchIndex], p)"
| "run_handler QuickInput e p =
     (let query = trim (event_value e) in
      if length query < 2 then ([ClearTimeout, HideQuickResults], p\<lparr>searchTimeout := None\<rparr>)
      else ([ClearTimeout, SetTimeout], p\<lparr>searchTimeout := Some (QuickTask query)\<rparr>))"
| "run_handler FullInput e p =
     (let query = trim (event_value e) in
      if length query < 2 then ([ClearTimeout, ShowFullHint], p\<lparr>searchTimeout := None\<rparr>)
      else ([ClearTimeout, SetTimeout], p\<lparr>searchTimeout := Some (FullTask query)\<rparr>))"
| "run_handler QuickClick e p =
     (case e of Click True \<Rightarrow> ([HideQuickResults], p) | _ \<Rightarrow> ([], p))"
| "run_handler QuickKeydown e p =
     (if event_value e = ''Enter'' \<and> result_item_rendered p then ([NavigateToFirstResult], p)
      else ([], p))"

fun run_listeners :: "listener list \<Rightarrow> event \<Rightarrow> page \<Rightarrow> action list \<times> page" where
  "run_listeners [] e p = ([], p)"
| "run_listeners (l # ls) e p =
     (let (acts1, p1) = run_handler (l_handler l) e p;
          (acts2, p2) = run_listeners ls e p1
      in (acts1 @ acts2, p2))"

definition listens :: "event \<Rightarrow> listener \<Rightarrow> bool" where
  "listens e l = (event_target e = Some (l_target l) \<and> event_kind e = Some (l_type l))"

definition dispatch :: "event \<Rightarrow> page \<Rightarrow> action list \<times> page" where
  "dispatch e p =
     (case e of
        TimerFired returns \<Rightarrow>
          (case searchTimeout p of
             None \<Rightarrow> ([], p)
           | Some (QuickTask query) \<Rightarrow>
               (if returns
                then ([LoadSearchIndex, RunSearch query 5, RenderQuick],
                      p\<lparr>searchTimeout := None, result_item_rendered := True\<rparr>)
                else ([LoadSearchIndex, RunSearch query 5], p\<lparr>searchTimeout := None\<rparr>))
           | Some (FullTask query) \<Rightarrow>
               (if returns
                then ([LoadSearchIndex, RunSearch query 20, RenderFull], p\<lparr>searchTimeout := None\<rparr>)
                else ([LoadSearchIndex, RunSearch query 20], p\<lparr>searchTimeout := None\<rparr>)))
      | _ \<Rightarrow>
          (let called = filter (listens e) (listeners p);
               kept = filter (\<lambda>l. \<not> (listens e l \<and> l_once l)) (listeners p)
           in run_listeners called e (p\<lparr>listeners := kept\<rparr>)))"

fun run_events :: "event list \<Rightarrow> page \<Rightarrow> (event \<times> action list) list" where
  \<comment> \<open>the events of a session, each with what its handlers did\<close>
  "run_events [] p = []"
| "run_events (e # es) p = (let (acts, p1) = dispatch e p in (e, acts) # run_events es p1)"

definition focus_loads :: "(event \<times> action list) list \<Rightarrow> nat list" where
  \<comment> \<open>for every focus event on the quick-search field, in order, the number of calls of
      \<^verbatim>\<open>loadSearchIndex\<close> that it made\<close>
  "focus_loads tr =
     map (\<lambda>ea. length (filter (\<lambda>a. a = LoadSearchIndex) (snd ea)))
         (filter (\<lambda>ea. fst ea = Focus QuickSearch) tr)"

section \<open>Notions of the specification\<close>

text \<open>
  The specification speaks of the number of non-overlapping occurrences of a term as a
  literal substring, and of a highlighted text with its markup stripped. Both are defined
  here from the specification's words, to be compared with what the code computes.
\<close>

function count_occurrences :: "string \<Rightarrow> string \<Rightarrow> nat" where
  \<comment> \<open>the occurrences of \<open>t\<close> in \<open>s\<close>, read from the left, none overlapping another\<close>
  "count_occurrences s t =
     (if t = [] \<or> s = [] then 0
      else if startsWith s t then Suc (count_occurrences (drop (length t) s) t)
      else count_occurrences (tl s) t)"
  by pat_completeness auto
termination
  by (relation "measure (\<lambda>(s, t). length s)") auto

function strip_marks :: "string \<Rightarrow> string" where
  \<comment> \<open>the text without the opening and closing tags of the highlight\<close>
  "strip_marks s =
     (if s = [] then []
      else if startsWith s mark_open then strip_marks (drop (length mark_open) s)
      else if startsWith s mark_close then strip_marks (drop (length mark_close) s)
      else hd s # strip_marks (tl s))"
  by pat_completeness auto
termination
  by (relation "measure length") (auto simp: mark_open_def mark_close_def)

function strip_tags :: "string \<Rightarrow> string" where
  \<comment> \<open>a second reading of stripping: every tag, from a \<^verbatim>\<open><\<close> to the next \<^verbatim>\<open>>\<close>, is removed\<close>
  "strip_tags s =
     (case s of
        [] \<Rightarrow> []
      | c # s' \<Rightarrow>
          (if c = CHR ''<'' \<and> CHR ''>'' \<in> set s'
           then strip_tags (tl (dropWhile (\<lambda>d. d \<noteq> CHR ''>'') s'))
           else c # strip_tags s'))"
  by pat_completeness auto
termination
proof (relation "measure length")
  show "wf (measure length)" by simp
next
  fix s :: string and c s'
  assume s: "s = c # s'" and "c = CHR ''<'' \<and> CHR ''>'' \<in> set s'"
  have "length (tl (dropWhile (\<lambda>d. d \<noteq> CHR ''>'') s')) \<le> length (dropWhile (\<lambda>d. d \<noteq> CHR ''>'') s')"
    by simp
  also have "\<dots> \<le> length s'"
    by (rule length_dropWhile_le)
  finally show "(tl (dropWhile (\<lambda>d. d \<noteq> CHR ''>'') s'), s) \<in> measure length"
    using s by simp
next
  fix s :: string and c s'
  assume "s = c # s'"
  then show "(s', s) \<in> measure length" by simp
qed

declare count_occurrences.simps [simp del] strip_marks.simps [simp del] strip_tags.simps [simp del]

text \<open>A state in which the index has been loaded: the array is at reference 0.\<close>

definition loaded :: "IndexEntry list \<Rightarrow> module_state" where
  "loaded items =
     \<lparr>searchIndex = Some 0, heap = Map.empty(0 \<mapsto> EntryArray items), nextRef = 1,
      requests = 1, console_errors = 0\<rparr>"

definition scenario_index :: "IndexEntry list" where
  "scenario_index =
     [\<lparr>title = ''Magik'', content = ''A story about a magik user. Magik is powerful.'',
       url = ''/a'', category = ''Backstory''\<rparr>,
      \<lparr>title = ''Settlement'', content = ''The world state.'', url = ''/b'',
       category = ''Setting''\<rparr>]"

text \<open>The state of the module when the page has just been opened.\<close>

definition init_state :: module_state where
  "init_state =
     \<lparr>searchIndex = None, heap = Map.empty, nextRef = 0, requests = 0, console_errors = 0\<rparr>"

text \<open>A session's calls of \<^verbatim>\<open>search\<close>, one after the other, whatever each returns.\<close>

fun search_calls :: "(string \<times> int) list \<Rightarrow> module_state \<Rightarrow> module_state" where
  "search_calls [] st = st"
| "search_calls (c # cs) st = search_calls cs (snd (search st (fst c) (snd c)))"

definition entry_of :: "ScoredResult \<Rightarrow> IndexEntry" where
  \<comment> \<open>the fields of a result that come from its index entry\<close>
  "entry_of r = \<lparr>title = title r, content = content r, url = url r, category = category r\<rparr>"

definition session_start :: module_state where
  \<comment> \<open>the state after the first, successful, load of the scenario's index\<close>
  "session_start = snd (loadSearchIndex init_state (Parsed scenario_index))"

text \<open>
  A page on which no listener is registered and nothing is rendered yet; the focus listeners of the quick-search
  field that a page holds; and the number of focus events on that field in a sequence of
  events.
\<close>

definition fresh_page :: "bool \<Rightarrow> bool \<Rightarrow> page" where
  "fresh_page q f =
     \<lparr>has_quick_search = q, has_search_input = f, listeners = [], searchTimeout = None,
      result_item_rendered = False\<rparr>"

definition quick_focus_listeners :: "page \<Rightarrow> listener list" where
  "quick_focus_listeners p =
     filter (\<lambda>l. l_target l = QuickSearch \<and> l_type l = TFocus) (listeners p)"

definition focus_count :: "event list \<Rightarrow> nat" where
  "focus_count evs = length (filter (\<lambda>e. e = Focus QuickSearch) evs)"

section \<open>The scenario of the specification\<close>

text \<open>
  C1. On the index of the scenario, \<^verbatim>\<open>search("magik", 10)\<close> returns one result, the first
  entry, with score 32: the lowercased title contains the term (10) and is equal to it
  (20), and the lowercased content has two matches of the term.
\<close>

theorem search_scenario_magik:
  "fst (search (loaded scenario_index) ''magik'' 10) = Inr 3
   \<and> results_of (snd (search (loaded scenario_index) ''magik'' 10)) 3
       = [\<lparr>title = ''Magik'', content = ''A story about a magik user. Magik is powerful.'',
           url = ''/a'', category = ''Backstory'', score = 32\<rparr>]
   \<and> js_includes (toLowerCase ''Magik'') ''magik''
   \<and> toLowerCase ''Magik'' = ''magik''
   \<and> map_sum id (js_match (toLowerCase ''A story about a magik user. Magik is powerful.''))
         (js_RegExp ''magik'') = Inr (Some [''magik'', ''magik''])"
  by code_simp

section \<open>Terms are used as patterns by search\<close>

text \<open>
  C2. The content contribution of a term should be the number of its occurrences as a
  literal substring. The code builds the regular expression from the term as it is: for
  the term \<^verbatim>\<open>a.c\<close> and the content \<^verbatim>\<open>abc\<close> the contribution is 1, although the term
  does not occur, and the entry is returned with score 1; for the term \<^verbatim>\<open>c++\<close> the
  construction of the regular expression throws, although the term occurs once.
\<close>

theorem search_term_is_pattern:
  "count_occurrences ''abc'' ''a.c'' = 0
   \<and> score_terms ''t'' ''abc'' [''a.c''] 0 = Inr 1
   \<and> results_of (snd (search (loaded [\<lparr>title = ''T'', content = ''abc'', url = ''/t'',
                                         category = ''C''\<rparr>]) ''a.c'' 10)) 3
       = [\<lparr>title = ''T'', content = ''abc'', url = ''/t'', category = ''C'', score = 1\<rparr>]
   \<and> count_occurrences ''c++'' ''c++'' = 1
   \<and> score_terms ''t'' ''c++'' [''c++''] 0 = Inl SyntaxError
   \<and> fst (search (loaded [\<lparr>title = ''T'', content = ''c++'', url = ''/t'',
                             category = ''C''\<rparr>]) ''c++'' 10) = Inl SyntaxError"
  by code_simp

text \<open>
  C3. Scoring should return for every query. On the loaded index of the scenario the query
  \<^verbatim>\<open>((\<close> makes \<^verbatim>\<open>new RegExp\<close> throw a SyntaxError, which \<^verbatim>\<open>search\<close> does not catch;
  \<^verbatim>\<open>highlightText\<close>, which escapes its terms, returns for the same query.
\<close>

theorem search_throws_on_invalid_pattern:
  "search (loaded scenario_index) ''(('' 10 = (Inl SyntaxError, loaded scenario_index)
   \<and> highlightText ''x'' ''(('' = Inr ''x''"
proof -
  have a: "search (loaded scenario_index) ''(('' 10 = (Inl SyntaxError, loaded scenario_index)"
    by (simp add: search_def loaded_def scenario_index_def trim_def isWhiteSpace_def
          toLowerCase_def split_ws_def score_item_def js_RegExp_def)
  have b: "highlightText ''x'' ''(('' = Inr ''x''"
    by code_simp
  from a b show ?thesis
    by (rule conjI)
qed

section \<open>Terms without syntax characters\<close>

text \<open>
  Where the code and the specification agree: a term that has no syntax character of the
  pattern language is a pattern for itself, and its content contribution is the number of
  its non-overlapping occurrences in the lowercased content.
\<close>

lemma parse_literal:
  "list_all (\<lambda>c. \<not> isSyntaxCharacter c) t \<Longrightarrow>
   parse_pattern (t @ rest) stack (alts, ts) q
     = parse_pattern rest stack (alts, rev (map RChar t) @ ts) (if t = [] then q else AfterAtom)"
proof (induction t arbitrary: ts q)
  case Nil
  show ?case by simp
next
  case (Cons c t)
  from Cons.prems have "\<not> isSyntaxCharacter c" and t: "list_all (\<lambda>c. \<not> isSyntaxCharacter c) t"
    by simp_all
  then have "parse_pattern ((c # t) @ rest) stack (alts, ts) q
      = parse_pattern (t @ rest) stack (alts, RChar c # ts) AfterAtom"
    by (simp add: isSyntaxCharacter_def)
  then show ?case
    by (simp add: Cons.IH [OF t])
qed

lemma RegExp_literal:
  assumes "list_all (\<lambda>c. \<not> isSyntaxCharacter c) t"
  shows "js_RegExp t = Inr (mk_seq (map RChar t))"
  using parse_literal [OF assms, of "[]" "[]" "[]" "[]" NoAtom]
  by (simp add: js_RegExp_def close_frame_def)

lemma match_literal:
  "rx_match False n (mk_seq (map RChar t)) s = (if startsWith s t then [drop (length t) s] else [])"
proof (induction t arbitrary: s)
  case Nil
  show ?case by simp
next
  case (Cons c t)
  show ?case
  proof (cases t)
    case Nil
    then show ?thesis by (cases s) auto
  next
    case (Cons d t')
    then have "mk_seq (map RChar (c # t)) = RSeq (RChar c) (mk_seq (map RChar t))"
      by simp
    then show ?thesis
      using Cons.IH by (cases s) auto
  qed
qed

lemma startsWith_Nil: "t \<noteq> [] \<Longrightarrow> \<not> startsWith [] t"
  by (cases t) simp_all

lemma startsWith_drop: "t \<noteq> [] \<Longrightarrow> startsWith s t \<Longrightarrow> length (drop (length t) s) < length s"
  by (cases t; cases s) simp_all

lemma global_matches_literal:
  "t \<noteq> [] \<Longrightarrow>
   length (global_matches False n (mk_seq (map RChar t)) s) = count_occurrences s t"
proof (induction s t rule: count_occurrences.induct)
  case (1 s t)
  show ?case
  proof (cases s)
    case Nil
    with "1.prems" show ?thesis
      by (subst global_matches.simps, subst count_occurrences.simps)
         (simp add: match_literal startsWith_Nil)
  next
    case (Cons c s')
    show ?thesis
    proof (cases "startsWith s t")
      case True
      have "length (global_matches False n (mk_seq (map RChar t)) (drop (length t) s))
              = count_occurrences (drop (length t) s) t"
        using "1.IH"(1) "1.prems" True Cons by simp
      with True Cons "1.prems" startsWith_drop [OF "1.prems" True] show ?thesis
        by (subst global_matches.simps, subst count_occurrences.simps)
           (simp add: match_literal)
    next
      case False
      have "length (global_matches False n (mk_seq (map RChar t)) (tl s))
              = count_occurrences (tl s) t"
        using "1.IH"(2) "1.prems" False Cons by simp
      with False Cons "1.prems" show ?thesis
        by (subst global_matches.simps, subst count_occurrences.simps)
           (simp add: match_literal)
    qed
  qed
qed

lemma content_matches_literal:
  assumes "t \<noteq> []" and "list_all (\<lambda>c. \<not> isSyntaxCharacter c) t"
  shows "score_terms titleLower contentLower [t] sc
     = Inr ((if js_includes titleLower t then (if titleLower = t then sc + 10 + 20 else sc + 10) else sc)
            + int (count_occurrences contentLower t))"
proof -
  have "length (case js_match contentLower (mk_seq (map RChar t)) of None \<Rightarrow> [] | Some ms \<Rightarrow> ms)
      = count_occurrences contentLower t"
    using global_matches_literal [OF assms(1), of "length contentLower" contentLower]
    by (cases "global_matches False (length contentLower) (mk_seq (map RChar t)) contentLower")
       (simp_all add: js_match_def)
  then show ?thesis
    by (simp add: RegExp_literal [OF assms(2)] Let_def)
qed

section \<open>highlightText returns for every text and query\<close>

text \<open>
  The pattern that \<^verbatim>\<open>highlightText\<close> builds from an escaped term is always one group
  around the characters of the term, so the construction never throws.
\<close>

lemma parse_escaped:
  "parse_pattern (escapeRegex t @ rest) stack (alts, ts) q
     = parse_pattern rest stack (alts, rev (map RChar t) @ ts) (if t = [] then q else AfterAtom)"
proof (induction t arbitrary: ts q)
  case Nil
  show ?case by (simp add: escapeRegex_def)
next
  case (Cons c t)
  have e: "escapeRegex (c # t) = (if isSyntaxCharacter c then [CHR 0x5C, c] else [c]) @ escapeRegex t"
    by (simp add: escapeRegex_def)
  show ?case
  proof (cases "isSyntaxCharacter c")
    case True
    then have "parse_pattern (escapeRegex (c # t) @ rest) stack (alts, ts) q
        = parse_pattern (escapeRegex t @ rest) stack (alts, RChar c # ts) AfterAtom"
      by (simp add: e)
    then show ?thesis
      by (simp add: Cons.IH)
  next
    case False
    then have "parse_pattern (escapeRegex (c # t) @ rest) stack (alts, ts) q
        = parse_pattern (escapeRegex t @ rest) stack (alts, RChar c # ts) AfterAtom"
      by (simp add: e isSyntaxCharacter_def)
    then show ?thesis
      by (simp add: Cons.IH)
  qed
qed

lemma escaped_no_question: "\<not> startsWith (escapeRegex t @ '')'') ''?''"
proof (cases t)
  case Nil
  then show ?thesis by (simp add: escapeRegex_def)
next
  case (Cons c t')
  show ?thesis
  proof (cases "isSyntaxCharacter c")
    case True
    with Cons show ?thesis by (simp add: escapeRegex_def)
  next
    case False
    then have "c \<noteq> CHR ''?''"
      by (simp add: isSyntaxCharacter_def)
    with Cons False show ?thesis by (simp add: escapeRegex_def)
  qed
qed

lemma RegExp_escaped:
  "js_RegExp (''('' @ escapeRegex t @ '')'') = Inr (RGroup (mk_seq (map RChar t)))"
proof -
  have "parse_pattern (CHR ''('' # (escapeRegex t @ '')'')) [] ([], []) NoAtom
      = parse_pattern (escapeRegex t @ '')'') [([], [])] ([], []) NoAtom"
    using escaped_no_question [of t] by simp
  also have "\<dots> = parse_pattern '')'' [([], [])] ([], rev (map RChar t)) (if t = [] then NoAtom else AfterAtom)"
    using parse_escaped [of t "'')''" "[([], [])]" "[]" "[]" NoAtom] by simp
  also have "\<dots> = Inr (RGroup (mk_seq (map RChar t)))"
    by (simp add: close_frame_def)
  finally show ?thesis
    by (simp add: js_RegExp_def)
qed

lemma highlight_terms_total: "\<exists>h. highlight_terms terms s = Inr h"
proof (induction terms arbitrary: s)
  case Nil
  show ?case by simp
next
  case (Cons t terms)
  have "highlight_terms (t # terms) s
      = highlight_terms terms
          (replace_matches (length s) (RGroup (mk_seq (map RChar t))) mark_open mark_close s)"
    using RegExp_escaped [of t] by (simp add: js_replace_group1_def)
  with Cons.IH show ?case by simp
qed

lemma highlightText_total: "\<exists>h. highlightText text query = Inr h"
  by (simp add: highlightText_def highlight_terms_total)

section \<open>highlightText scans the markup it has inserted\<close>

text \<open>
  C5. Stripping the markup of a highlighted text should give the text back. For the text
  \<^verbatim>\<open>x\<close> and the query \<^verbatim>\<open>x mark\<close> the second term matches inside the two tags inserted
  for the first: the tags are broken, and what is left is not the text, whether the mark
  tags are removed or everything between angle brackets is. The query \<^verbatim>\<open>is a\<close> does the
  same to a text that holds both words.
\<close>

theorem highlight_rescans_markup:
  "highlightText ''x'' ''x mark''
     = Inr (''<'' @ mark_open @ ''mark'' @ mark_close @ '' class=\"search-highlight\">x</''
            @ mark_open @ ''mark'' @ mark_close @ ''>'')
   \<and> map_sum id strip_marks (highlightText ''x'' ''x mark'') = Inr (mark_open @ ''x'' @ mark_close)
   \<and> map_sum id strip_marks (highlightText ''x'' ''x mark'') \<noteq> Inr ''x''
   \<and> map_sum id strip_tags (highlightText ''x'' ''x mark'')
       = Inr ''mark class=\"search-highlight\">xmark>''
   \<and> map_sum id strip_marks (highlightText ''Magik is a user'' ''is a'')
       = Inr (''Magik '' @ mark_open @ ''is'' @ mark_close @ '' a user'')"
  by code_simp

section \<open>The guard of search\<close>

lemma dropWhile_all: "list_all P xs \<Longrightarrow> dropWhile P xs = []"
  by (induction xs) auto

lemma trim_whitespace_only: "list_all isWhiteSpace q \<Longrightarrow> trim q = []"
  by (simp add: trim_def dropWhile_all)

text \<open>
  C6. When the index is not loaded, or the query is empty, consists of white space only or
  is shorter than two characters once trimmed, \<^verbatim>\<open>search\<close> returns a fresh empty array
  and does nothing else, whatever the index holds and whatever the limit is.
\<close>

theorem search_guard:
  assumes "searchIndex st = None \<or> query = [] \<or> list_all isWhiteSpace query \<or> length (trim query) < 2"
  shows "fst (search st query limit) = Inr (nextRef st)
         \<and> snd (search st query limit) = snd (alloc (ResultArray []) st)
         \<and> results_of (snd (search st query limit)) (nextRef st) = []"
proof -
  from assms have g: "searchIndex st = None \<or> query = [] \<or> length (trim query) < 2"
    using trim_whitespace_only by fastforce
  then have "search st query limit = (Inr (nextRef st), snd (alloc (ResultArray []) st))"
    unfolding search_def alloc_def by (simp add: Let_def)
  then show ?thesis
    by (simp add: results_of_def alloc_def)
qed

theorem search_guard_witness:
  "length (trim '' a  '') < 2
   \<and> fst (search (loaded scenario_index) '' a  '' 10) = Inr 1
   \<and> results_of (snd (search (loaded scenario_index) '' a  '' 10)) 1 = []"
proof -
  have h: "length (trim '' a  '') < 2"
    by (simp add: trim_def isWhiteSpace_def)
  show ?thesis
    using h search_guard [of "loaded scenario_index" "'' a  ''" 10]
    by (simp add: loaded_def results_of_def alloc_def)
qed

section \<open>The two variants agree\<close>

lemma escapeRegex_min_eq: "escapeRegex_min str = escapeRegex str"
  by (simp add: escapeRegex_min_def escapeRegex_def)

lemma highlight_terms_min_eq: "highlight_terms_min terms h = highlight_terms terms h"
  by (induction terms arbitrary: h)
     (simp_all add: escapeRegex_min_eq mark_open_def mark_close_def split: sum.splits)

lemma score_terms_min_eq: "score_terms_min t c terms sc = score_terms t c terms sc"
  by (induction terms arbitrary: sc t c) (simp_all add: Let_def split: sum.splits)

lemma map_items_min_eq: "map_items_min terms items = map_items terms items"
  by (induction items) (simp_all add: score_item_def score_terms_min_eq Let_def split: sum.splits)

text \<open>
  C10. The minified \<^verbatim>\<open>search\<close> and \<^verbatim>\<open>highlightText\<close> return what the readable ones
  return, for every state, query, limit and text.
\<close>

theorem minified_equals_readable:
  "search_min st query limit = search st query limit
   \<and> highlightText_min text query = highlightText text query"
  by (simp add: search_min_def search_def highlightText_min_def highlightText_def
        map_items_min_eq highlight_terms_min_eq Let_def split: option.splits js_array.splits)

theorem minified_equals_readable_witness:
  "search_min (loaded scenario_index) ''magik'' 10 = search (loaded scenario_index) ''magik'' 10
   \<and> highlightText_min ''Magik'' ''magik'' = highlightText ''Magik'' ''magik''"
  using minified_equals_readable [of "loaded scenario_index" "''magik''" 10 "''Magik''"]
  by simp

section \<open>The cache of loadSearchIndex\<close>

text \<open>
  C4, as the code has it. A call with an empty cache issues one request. When the index
  arrives it is stored and returned. When the fetch or the parsing fails, the error is
  logged, a fresh empty array is returned and the cache stays empty. A call with a filled
  cache returns the cached array and issues no request. So a failed load is not
  remembered: the next call fetches again.
\<close>

theorem loadSearchIndex_cache:
  "(searchIndex st = None \<longrightarrow>
      fst (loadSearchIndex st (Parsed items)) = nextRef st
      \<and> snd (loadSearchIndex st (Parsed items))
          = st\<lparr>searchIndex := Some (nextRef st),
                heap := (heap st)(nextRef st \<mapsto> EntryArray items),
                nextRef := Suc (nextRef st),
                requests := Suc (requests st)\<rparr>)
   \<and> (searchIndex st = None \<and> (net = FetchFailed \<or> net = ParseFailed) \<longrightarrow>
      fst (loadSearchIndex st net) = nextRef st
      \<and> snd (loadSearchIndex st net)
          = st\<lparr>heap := (heap st)(nextRef st \<mapsto> EntryArray []),
                nextRef := Suc (nextRef st),
                requests := Suc (requests st),
                console_errors := Suc (console_errors st)\<rparr>)
   \<and> (searchIndex st = Some idx \<longrightarrow> loadSearchIndex st net = (idx, st))"
  by (auto simp: loadSearchIndex_def alloc_def Let_def)

text \<open>
  The first call fails and returns an empty array; the second call issues a second request
  and returns the index.
\<close>

theorem loadSearchIndex_refetches_after_failure:
  "fst (loadSearchIndex init_state FetchFailed) = 0
   \<and> heap (snd (loadSearchIndex init_state FetchFailed)) 0 = Some (EntryArray [])
   \<and> requests (snd (loadSearchIndex init_state FetchFailed)) = 1
   \<and> fst (loadSearchIndex (snd (loadSearchIndex init_state FetchFailed)) (Parsed scenario_index)) = 1
   \<and> requests (snd (loadSearchIndex (snd (loadSearchIndex init_state FetchFailed)) (Parsed scenario_index))) = 2
   \<and> heap (snd (loadSearchIndex (snd (loadSearchIndex init_state FetchFailed)) (Parsed scenario_index))) 1
       = Some (EntryArray scenario_index)"
  by (simp add: loadSearchIndex_def alloc_def init_state_def Let_def)

theorem loadSearchIndex_cache_witness:
  "searchIndex init_state = None
   \<and> fst (loadSearchIndex init_state (Parsed scenario_index)) = 0
   \<and> requests (snd (loadSearchIndex init_state (Parsed scenario_index))) = 1
   \<and> searchIndex (snd (loadSearchIndex init_state ParseFailed)) = None
   \<and> heap (snd (loadSearchIndex init_state ParseFailed)) 0 = Some (EntryArray [])
   \<and> searchIndex (loaded scenario_index) = Some 0
   \<and> loadSearchIndex (loaded scenario_index) FetchFailed = (0, loaded scenario_index)"
proof -
  have h0: "searchIndex init_state = None"
    by (simp add: init_state_def)
  have h1: "searchIndex (loaded scenario_index) = Some 0"
    by (simp add: loaded_def)
  show ?thesis
    using h0 h1
      loadSearchIndex_cache [of init_state scenario_index ParseFailed 0]
      loadSearchIndex_cache [of "loaded scenario_index" scenario_index FetchFailed 0]
    by (simp add: init_state_def)
qed

section \<open>What search returns\<close>

lemma set_insert_by: "set (insert_by cmp x ys) = insert x (set ys)"
  by (induction ys) auto

lemma length_insert_by: "length (insert_by cmp x ys) = Suc (length ys)"
  by (induction ys) auto

lemma set_js_sort: "set (js_sort cmp xs) = set xs"
  by (induction xs) (simp_all add: js_sort_def set_insert_by)

lemma length_js_sort: "length (js_sort cmp xs) = length xs"
  by (induction xs) (simp_all add: js_sort_def length_insert_by)

lemma sorted_insert_by_score:
  "sorted_wrt (\<lambda>x y. score y \<le> score x) ys \<Longrightarrow>
   sorted_wrt (\<lambda>x y. score y \<le> score x) (insert_by (\<lambda>a b. score b - score a) x ys)"
  by (induction ys) (auto simp: set_insert_by)

lemma sorted_js_sort_score:
  "sorted_wrt (\<lambda>x y. score y \<le> score x) (js_sort (\<lambda>a b. score b - score a) xs)"
  by (induction xs) (simp_all add: js_sort_def sorted_insert_by_score)

lemma sorted_wrt_take: "sorted_wrt P xs \<Longrightarrow> sorted_wrt P (take n xs)"
  by (induction xs arbitrary: n) (auto simp: take_Cons' dest: in_set_takeD)

lemma set_slice0: "set (slice0 xs limit) \<subseteq> set xs"
  by (simp add: slice0_def set_take_subset)

lemma length_slice0: "0 \<le> limit \<Longrightarrow> int (length (slice0 xs limit)) \<le> limit"
  by (simp add: slice0_def)

lemma search_scored:
  assumes "searchIndex st = Some idx" and "heap st idx = Some (EntryArray items)"
    and "query \<noteq> []" and "\<not> length (trim query) < 2"
    and "map_items (filter (\<lambda>term. length term > 0) (split_ws (toLowerCase query))) items = Inr scored"
  shows "search st query limit =
     (Inr (Suc (Suc (nextRef st))),
      st\<lparr>heap := (heap st)
              (nextRef st \<mapsto> ResultArray scored,
               Suc (nextRef st) \<mapsto>
                 ResultArray (js_sort (\<lambda>a b. score b - score a) (filter (\<lambda>item. score item > 0) scored)),
               Suc (Suc (nextRef st)) \<mapsto>
                 ResultArray (slice0 (js_sort (\<lambda>a b. score b - score a) (filter (\<lambda>item. score item > 0) scored)) limit)),
          nextRef := Suc (Suc (Suc (nextRef st)))\<rparr>)"
  using assms by (simp add: search_def alloc_def sort_in_place_def Let_def)

lemma search_cases:
  "(search st query limit = (Inr (nextRef st), snd (alloc (ResultArray []) st))
      \<and> (searchIndex st = None \<or> query = [] \<or> length (trim query) < 2))
   \<or> (\<exists>e. search st query limit = (Inl e, st))
   \<or> (\<exists>idx items scored. searchIndex st = Some idx \<and> heap st idx = Some (EntryArray items)
        \<and> query \<noteq> [] \<and> \<not> length (trim query) < 2
        \<and> map_items (filter (\<lambda>term. length term > 0) (split_ws (toLowerCase query))) items = Inr scored)"
  by (auto simp: search_def alloc_def Let_def split: option.splits js_array.splits sum.splits)

lemma score_terms_js_engine:
  "score_terms_with js_engine t c terms sc = score_terms t c terms sc"
  by (induction terms arbitrary: sc t c) (simp_all add: js_engine_def Let_def split: sum.splits)

lemma map_items_js_engine: "map_items_with js_engine terms items = map_items terms items"
  by (induction items)
     (simp_all add: score_item_with_def score_item_def score_terms_js_engine Let_def
        split: sum.splits)

lemma search_with_js_engine: "search_with js_engine st query limit = search st query limit"
  by (simp add: search_with_def search_def map_items_js_engine Let_def
        split: option.splits js_array.splits)

lemma search_with_scored:
  assumes "searchIndex st = Some idx" and "heap st idx = Some (EntryArray items)"
    and "query \<noteq> []" and "\<not> length (trim query) < 2"
    and "map_items_with engine (query_terms query) items = Inr scored"
  shows "search_with engine st query limit =
     (Inr (Suc (Suc (nextRef st))),
      st\<lparr>heap := (heap st)
              (nextRef st \<mapsto> ResultArray scored,
               Suc (nextRef st) \<mapsto>
                 ResultArray (js_sort (\<lambda>a b. score b - score a) (filter (\<lambda>item. score item > 0) scored)),
               Suc (Suc (nextRef st)) \<mapsto>
                 ResultArray (slice0 (js_sort (\<lambda>a b. score b - score a) (filter (\<lambda>item. score item > 0) scored)) limit)),
          nextRef := Suc (Suc (Suc (nextRef st)))\<rparr>)"
  using assms by (simp add: search_with_def query_terms_def alloc_def sort_in_place_def Let_def)

lemma search_with_cases:
  "(search_with engine st query limit = (Inr (nextRef st), snd (alloc (ResultArray []) st))
      \<and> (searchIndex st = None \<or> query = [] \<or> length (trim query) < 2))
   \<or> (\<exists>e. search_with engine st query limit = (Inl e, st))
   \<or> (\<exists>idx items scored. searchIndex st = Some idx \<and> heap st idx = Some (EntryArray items)
        \<and> query \<noteq> [] \<and> \<not> length (trim query) < 2
        \<and> map_items_with engine (query_terms query) items = Inr scored)"
  by (auto simp: search_with_def query_terms_def alloc_def Let_def
        split: option.splits js_array.splits sum.splits)

lemma search_with_ordered:
  assumes "search_with engine st query limit = (Inr a, st')" and "0 \<le> limit"
  shows "\<exists>rs. heap st' a = Some (ResultArray rs)
            \<and> list_all (\<lambda>r. 0 < score r) rs
            \<and> sorted_wrt (\<lambda>x y. score y \<le> score x) rs
            \<and> int (length rs) \<le> limit"
proof -
  consider
    (guard) "search_with engine st query limit = (Inr (nextRef st), snd (alloc (ResultArray []) st))"
  | (error) e where "search_with engine st query limit = (Inl e, st)"
  | (scored) idx items scored where "searchIndex st = Some idx"
      "heap st idx = Some (EntryArray items)" "query \<noteq> []" "\<not> length (trim query) < 2"
      "map_items_with engine (query_terms query) items = Inr scored"
    using search_with_cases [of engine st query limit] by blast
  then show ?thesis
  proof cases
    case guard
    with assms show ?thesis by (auto simp: alloc_def)
  next
    case error
    with assms show ?thesis by simp
  next
    case scored
    let ?rs = "slice0 (js_sort (\<lambda>a b. score b - score a) (filter (\<lambda>item. score item > 0) scored)) limit"
    from search_with_scored [OF scored, of limit] assms(1)
    have "heap st' a = Some (ResultArray ?rs)" by auto
    moreover have "list_all (\<lambda>r. 0 < score r) ?rs"
      using set_slice0 [of "js_sort (\<lambda>a b. score b - score a) (filter (\<lambda>item. score item > 0) scored)" limit]
      by (auto simp: list_all_iff set_js_sort)
    moreover have "sorted_wrt (\<lambda>x y. score y \<le> score x) ?rs"
      by (simp add: slice0_def sorted_wrt_take sorted_js_sort_score)
    moreover have "int (length ?rs) \<le> limit"
      using assms(2) by (rule length_slice0)
    ultimately show ?thesis by blast
  qed
qed

lemma score_terms_accepted:
  "list_all (accepts engine) terms \<Longrightarrow> \<exists>s. score_terms_with engine t c terms sc = Inr s"
  by (induction terms arbitrary: sc) (auto simp: accepts_def Let_def split: sum.splits)

lemma map_items_accepted:
  "list_all (accepts engine) terms \<Longrightarrow> \<exists>scored. map_items_with engine terms items = Inr scored"
proof (induction items)
  case Nil
  show ?case by simp
next
  case (Cons item items)
  obtain s where
    "score_terms_with engine (toLowerCase (title item)) (toLowerCase (content item)) terms 0 = Inr s"
    using score_terms_accepted [OF Cons.prems] by blast
  moreover obtain scored where "map_items_with engine terms items = Inr scored"
    using Cons.IH [OF Cons.prems] by blast
  ultimately show ?case
    by (simp add: score_item_with_def Let_def)
qed

lemma search_with_returns:
  assumes "searchIndex st = Some idx" and "heap st idx = Some (EntryArray items)"
    and "list_all (accepts engine) (query_terms query)"
  shows "\<exists>a st'. search_with engine st query limit = (Inr a, st')"
proof (cases "query = [] \<or> length (trim query) < 2")
  case True
  then show ?thesis
    by (simp add: search_with_def alloc_def Let_def)
next
  case False
  obtain scored where "map_items_with engine (query_terms query) items = Inr scored"
    using map_items_accepted [OF assms(3)] by blast
  with search_with_scored [OF assms(1,2), of query engine scored limit] False show ?thesis
    by blast
qed

text \<open>
  C7. Whatever the regular expression engine of the platform is, for every state, every
  query and every limit that is not negative: the array that \<^verbatim>\<open>search\<close> returns has only
  results with a score above 0, in non-increasing order of score, and at most \<open>limit\<close>
  of them; and on a loaded index \<^verbatim>\<open>search\<close> does return an array when the engine accepts
  every term of the query.
\<close>

theorem search_postcondition:
  assumes "0 \<le> limit"
  shows "(search_with engine st query limit = (Inr a, st') \<longrightarrow>
            (\<exists>rs. heap st' a = Some (ResultArray rs)
                \<and> list_all (\<lambda>r. 0 < score r) rs
                \<and> sorted_wrt (\<lambda>x y. score y \<le> score x) rs
                \<and> int (length rs) \<le> limit))
         \<and> (searchIndex st = Some idx \<and> heap st idx = Some (EntryArray items)
              \<and> list_all (accepts engine) (query_terms query) \<longrightarrow>
            (\<exists>b st''. search_with engine st query limit = (Inr b, st'')))"
  using assms search_with_ordered [of engine st query limit a st']
    search_with_returns [of st idx items engine query limit]
  by blast

theorem search_postcondition_witness:
  "(0::int) \<le> 1
   \<and> search_with js_engine (loaded scenario_index) ''a t'' 1
       = (Inr 3, snd (search (loaded scenario_index) ''a t'' 1))
   \<and> (\<exists>rs. heap (snd (search (loaded scenario_index) ''a t'' 1)) 3 = Some (ResultArray rs)
          \<and> list_all (\<lambda>r. 0 < score r) rs
          \<and> sorted_wrt (\<lambda>x y. score y \<le> score x) rs
          \<and> int (length rs) \<le> 1)
   \<and> searchIndex (loaded scenario_index) = Some 0
   \<and> heap (loaded scenario_index) 0 = Some (EntryArray scenario_index)
   \<and> list_all (accepts js_engine) (query_terms ''a t'')
   \<and> (\<exists>b st''. search_with js_engine (loaded scenario_index) ''a t'' 1 = (Inr b, st''))"
proof -
  have h0: "(0::int) \<le> 1"
    by simp
  have "fst (search (loaded scenario_index) ''a t'' 1) = Inr 3"
    by code_simp
  then have h1: "search_with js_engine (loaded scenario_index) ''a t'' 1
                   = (Inr 3, snd (search (loaded scenario_index) ''a t'' 1))"
    by (simp add: search_with_js_engine prod_eq_iff)
  have h2: "searchIndex (loaded scenario_index) = Some 0"
    and h3: "heap (loaded scenario_index) 0 = Some (EntryArray scenario_index)"
    by (simp_all add: loaded_def)
  have h4: "list_all (accepts js_engine) (query_terms ''a t'')"
    by (simp add: query_terms_def accepts_def js_engine_def js_RegExp_def toLowerCase_def
          split_ws_def isWhiteSpace_def close_frame_def)
  from search_postcondition [OF h0, of js_engine "loaded scenario_index" "''a t''" 3
      "snd (search (loaded scenario_index) ''a t'' 1)" 0 scenario_index]
    h0 h1 h2 h3 h4
  show ?thesis by blast
qed

section \<open>search leaves the index as it is\<close>

lemma search_frame:
  assumes "search st query limit = (res, st')"
  shows "searchIndex st' = searchIndex st \<and> nextRef st \<le> nextRef st'
         \<and> (\<forall>a. a < nextRef st \<longrightarrow> heap st' a = heap st a)"
proof -
  consider
    (guard) "search st query limit = (Inr (nextRef st), snd (alloc (ResultArray []) st))"
  | (error) e where "search st query limit = (Inl e, st)"
  | (scored) idx items scored where "searchIndex st = Some idx"
      "heap st idx = Some (EntryArray items)" "query \<noteq> []" "\<not> length (trim query) < 2"
      "map_items (filter (\<lambda>term. length term > 0) (split_ws (toLowerCase query))) items = Inr scored"
    using search_cases [of st query limit] by blast
  then show ?thesis
  proof cases
    case guard
    with assms show ?thesis by (auto simp: alloc_def)
  next
    case error
    with assms show ?thesis by simp
  next
    case scored
    from search_scored [OF scored, of limit] assms show ?thesis by auto
  qed
qed

lemma search_calls_frame:
  "searchIndex (search_calls cs st) = searchIndex st \<and> nextRef st \<le> nextRef (search_calls cs st)
   \<and> (\<forall>a. a < nextRef st \<longrightarrow> heap (search_calls cs st) a = heap st a)"
proof (induction cs arbitrary: st)
  case Nil
  show ?case by simp
next
  case (Cons c cs)
  obtain res st1 where s: "search st (fst c) (snd c) = (res, st1)"
    by (cases "search st (fst c) (snd c)")
  from search_frame [OF s] Cons.IH [of st1] s show ?case
    by auto
qed

lemma map_items_entries: "map_items terms items = Inr rs \<Longrightarrow> map entry_of rs = items"
  by (induction items arbitrary: rs)
     (auto simp: score_item_def entry_of_def Let_def split: sum.splits)

lemma search_result_entries:
  assumes "search st query limit = (Inr a, st')" and "searchIndex st = Some idx"
    and "heap st idx = Some (EntryArray items)"
  shows "nextRef st \<le> a \<and> set (map entry_of (results_of st' a)) \<subseteq> set items"
proof -
  consider
    (guard) "search st query limit = (Inr (nextRef st), snd (alloc (ResultArray []) st))"
  | (error) e where "search st query limit = (Inl e, st)"
  | (scored) idx' items' scored where "searchIndex st = Some idx'"
      "heap st idx' = Some (EntryArray items')" "query \<noteq> []" "\<not> length (trim query) < 2"
      "map_items (filter (\<lambda>term. length term > 0) (split_ws (toLowerCase query))) items' = Inr scored"
    using search_cases [of st query limit] by blast
  then show ?thesis
  proof cases
    case guard
    with assms show ?thesis by (auto simp: alloc_def results_of_def)
  next
    case error
    with assms show ?thesis by simp
  next
    case scored
    let ?rs = "slice0 (js_sort (\<lambda>a b. score b - score a) (filter (\<lambda>item. score item > 0) scored)) limit"
    from scored assms have i: "items' = items" by simp
    from search_scored [OF scored, of limit] assms(1)
    have a: "a = Suc (Suc (nextRef st))" and r: "results_of st' a = ?rs"
      by (auto simp: results_of_def)
    have "set ?rs \<subseteq> set scored"
      using set_slice0 [of "js_sort (\<lambda>a b. score b - score a) (filter (\<lambda>item. score item > 0) scored)" limit]
      by (auto simp: set_js_sort)
    then have "entry_of ` set ?rs \<subseteq> set (map entry_of scored)"
      by auto
    with map_items_entries [OF scored(5)] i r a show ?thesis
      by simp
  qed
qed

text \<open>
  The same frame holds for every regular expression engine: a call of \<^verbatim>\<open>search\<close>
  changes neither \<open>searchIndex\<close> nor any array that the store held before the call.
\<close>

lemma search_with_frame:
  assumes "search_with engine st query limit = (res, st')"
  shows "searchIndex st' = searchIndex st \<and> nextRef st \<le> nextRef st'
         \<and> (\<forall>a. a < nextRef st \<longrightarrow> heap st' a = heap st a)"
proof -
  consider
    (guard) "search_with engine st query limit = (Inr (nextRef st), snd (alloc (ResultArray []) st))"
  | (error) e where "search_with engine st query limit = (Inl e, st)"
  | (scored) idx items scored where "searchIndex st = Some idx"
      "heap st idx = Some (EntryArray items)" "query \<noteq> []" "\<not> length (trim query) < 2"
      "map_items_with engine (query_terms query) items = Inr scored"
    using search_with_cases [of engine st query limit] by blast
  then show ?thesis
  proof cases
    case guard
    with assms show ?thesis by (auto simp: alloc_def)
  next
    case error
    with assms show ?thesis by simp
  next
    case scored
    from search_with_scored [OF scored, of limit] assms show ?thesis by auto
  qed
qed

text \<open>
  C8. Let the index array be loaded at a reference of the store. After any sequence of
  calls of \<^verbatim>\<open>search\<close>, whatever they return, \<open>searchIndex\<close> is the same reference
  and the array there is the same list of the same entries. The array that a call returns
  is another one, and each of its results has the four fields of an entry of the index.
\<close>

theorem search_leaves_index:
  assumes "searchIndex st = Some idx" and "idx < nextRef st"
    and "heap st idx = Some (EntryArray items)"
  shows "searchIndex (search_calls cs st) = Some idx
         \<and> heap (search_calls cs st) idx = Some (EntryArray items)
         \<and> (search st query limit = (Inr a, st') \<longrightarrow>
              a \<noteq> idx \<and> set (map entry_of (results_of st' a)) \<subseteq> set items)"
proof -
  from search_calls_frame [of cs st] assms
  have "searchIndex (search_calls cs st) = Some idx"
    and "heap (search_calls cs st) idx = Some (EntryArray items)"
    by auto
  moreover have "search st query limit = (Inr a, st') \<longrightarrow>
              a \<noteq> idx \<and> set (map entry_of (results_of st' a)) \<subseteq> set items"
    using search_result_entries [of st query limit a st' idx items] assms by auto
  ultimately show ?thesis by blast
qed

theorem search_leaves_index_witness:
  "searchIndex session_start = Some 0
   \<and> 0 < nextRef session_start
   \<and> heap session_start 0 = Some (EntryArray scenario_index)
   \<and> searchIndex (search_calls [(''magik'', 10), (''(('', 5), (''a t'', 1)] session_start) = Some 0
   \<and> heap (search_calls [(''magik'', 10), (''(('', 5), (''a t'', 1)] session_start) 0
       = Some (EntryArray scenario_index)
   \<and> search session_start ''magik'' 10 = (Inr 3, snd (search session_start ''magik'' 10))
   \<and> (3::nat) \<noteq> 0
   \<and> set (map entry_of (results_of (snd (search session_start ''magik'' 10)) 3))
        \<subseteq> set scenario_index"
proof -
  have h1: "searchIndex session_start = Some 0"
    and h2: "0 < nextRef session_start"
    and h3: "heap session_start 0 = Some (EntryArray scenario_index)"
    by (simp_all add: session_start_def loadSearchIndex_def init_state_def alloc_def)
  have "fst (search session_start ''magik'' 10) = Inr 3"
    by code_simp
  then have h4: "search session_start ''magik'' 10
                   = (Inr 3, snd (search session_start ''magik'' 10))"
    by (simp add: prod_eq_iff)
  from search_leaves_index [OF h1 h2 h3,
      of "[(''magik'', 10), (''(('', 5), (''a t'', 1)]" "''magik''" 10 3
         "snd (search session_start ''magik'' 10)"]
    h1 h2 h3 h4
  show ?thesis by simp
qed

section \<open>Focus events and the loader\<close>

lemma listens_focus: "listens (Focus QuickSearch) l = (l_target l = QuickSearch \<and> l_type l = TFocus)"
  by (auto simp: listens_def)

lemma listens_other:
  "e \<noteq> Focus QuickSearch \<Longrightarrow> l_target l = QuickSearch \<and> l_type l = TFocus \<Longrightarrow> \<not> listens e l"
  by (cases e) (auto simp: listens_def)

lemma run_handler_listeners: "listeners (snd (run_handler h e p)) = listeners p"
  by (cases h) (auto simp: Let_def split: event.splits bool.splits)

lemma run_listeners_listeners: "listeners (snd (run_listeners ls e p)) = listeners p"
proof (induction ls arbitrary: p)
  case Nil
  show ?case by simp
next
  case (Cons l ls)
  show ?case
    using Cons.IH [of "snd (run_handler (l_handler l) e p)"] run_handler_listeners [of "l_handler l" e p]
    by (simp add: split_beta Let_def)
qed

lemma dispatch_other:
  assumes "e \<noteq> Focus QuickSearch"
  shows "quick_focus_listeners (snd (dispatch e p)) = quick_focus_listeners p"
proof (cases "\<exists>returns. e = TimerFired returns")
  case True
  then show ?thesis
    by (auto simp: dispatch_def quick_focus_listeners_def split: option.splits task.splits)
next
  case False
  then have "snd (dispatch e p)
      = snd (run_listeners (filter (listens e) (listeners p)) e
               (p\<lparr>listeners := filter (\<lambda>l. \<not> (listens e l \<and> l_once l)) (listeners p)\<rparr>))"
    by (cases e) (simp_all add: dispatch_def Let_def)
  then have "listeners (snd (dispatch e p)) = filter (\<lambda>l. \<not> (listens e l \<and> l_once l)) (listeners p)"
    by (simp add: run_listeners_listeners)
  then show ?thesis
    using listens_other [OF assms]
    by (auto simp: quick_focus_listeners_def intro: filter_cong)
qed

lemma dispatch_focus_listeners:
  "quick_focus_listeners (snd (dispatch (Focus QuickSearch) p))
     = filter (\<lambda>l. \<not> l_once l) (quick_focus_listeners p)"
proof -
  have "listeners (snd (dispatch (Focus QuickSearch) p))
      = filter (\<lambda>l. \<not> (listens (Focus QuickSearch) l \<and> l_once l)) (listeners p)"
    by (simp add: dispatch_def Let_def run_listeners_listeners)
  then show ?thesis
    by (auto simp: quick_focus_listeners_def listens_focus intro: filter_cong)
qed

lemma dispatch_focus_actions:
  "fst (dispatch (Focus QuickSearch) p)
     = fst (run_listeners (quick_focus_listeners p) (Focus QuickSearch)
              (p\<lparr>listeners := filter (\<lambda>l. \<not> (listens (Focus QuickSearch) l \<and> l_once l)) (listeners p)\<rparr>))"
proof -
  have "listens (Focus QuickSearch) = (\<lambda>l. l_target l = QuickSearch \<and> l_type l = TFocus)"
    by (rule ext) (rule listens_focus)
  then show ?thesis
    by (simp add: dispatch_def Let_def quick_focus_listeners_def)
qed

lemma focus_loads_Cons:
  "focus_loads ((e, acts) # tr)
     = (if e = Focus QuickSearch then length (filter (\<lambda>a. a = LoadSearchIndex) acts) # focus_loads tr
        else focus_loads tr)"
  by (simp add: focus_loads_def)

lemma run_events_Cons:
  "run_events (e # es) p = (e, fst (dispatch e p)) # run_events es (snd (dispatch e p))"
  by (simp add: split_beta)

lemma disarmed_focus_loads:
  "quick_focus_listeners p = [] \<Longrightarrow> focus_loads (run_events evs p) = replicate (focus_count evs) 0"
proof (induction evs arbitrary: p)
  case Nil
  show ?case by (simp add: focus_loads_def focus_count_def)
next
  case (Cons e es)
  show ?case
  proof (cases "e = Focus QuickSearch")
    case True
    have "quick_focus_listeners (snd (dispatch e p)) = []"
      using Cons.prems True by (simp add: dispatch_focus_listeners)
    moreover have "fst (dispatch e p) = []"
      using Cons.prems True by (simp add: dispatch_focus_actions)
    ultimately show ?thesis
      using Cons.IH [of "snd (dispatch e p)"] True
      by (simp add: run_events_Cons focus_loads_Cons focus_count_def del: run_events.simps)
  next
    case False
    have "quick_focus_listeners (snd (dispatch e p)) = []"
      using Cons.prems False by (simp add: dispatch_other)
    then show ?thesis
      using Cons.IH [of "snd (dispatch e p)"] False
      by (simp add: run_events_Cons focus_loads_Cons focus_count_def del: run_events.simps)
  qed
qed

lemma armed_focus_loads:
  assumes "quick_focus_listeners p
             = [\<lparr>l_target = QuickSearch, l_type = TFocus, l_handler = LoadOnFocus, l_once = True\<rparr>]"
  shows "focus_loads (run_events evs p)
           = (if focus_count evs = 0 then [] else 1 # replicate (focus_count evs - 1) 0)"
  using assms
proof (induction evs arbitrary: p)
  case Nil
  show ?case by (simp add: focus_loads_def focus_count_def)
next
  case (Cons e es)
  show ?case
  proof (cases "e = Focus QuickSearch")
    case True
    have "quick_focus_listeners (snd (dispatch e p)) = []"
      using Cons.prems True by (simp add: dispatch_focus_listeners)
    then have "focus_loads (run_events es (snd (dispatch e p))) = replicate (focus_count es) 0"
      by (rule disarmed_focus_loads)
    moreover have "fst (dispatch e p) = [LoadSearchIndex]"
      using Cons.prems True by (simp add: dispatch_focus_actions)
    ultimately show ?thesis
      using True
      by (simp add: run_events_Cons focus_loads_Cons focus_count_def del: run_events.simps)
  next
    case False
    have "quick_focus_listeners (snd (dispatch e p)) = quick_focus_listeners p"
      using False by (simp add: dispatch_other)
    then show ?thesis
      using Cons.IH [of "snd (dispatch e p)"] Cons.prems False
      by (simp add: run_events_Cons focus_loads_Cons focus_count_def del: run_events.simps)
  qed
qed

lemma setup_min_armed:
  "quick_focus_listeners (snd (onDOMContentLoaded_min (fresh_page True f)))
     = [\<lparr>l_target = QuickSearch, l_type = TFocus, l_handler = LoadOnFocus, l_once = True\<rparr>]"
  by (simp add: onDOMContentLoaded_min_def setupQuickSearch_min_def setupFullSearch_min_def
        addEventListener_def fresh_page_def quick_focus_listeners_def)

lemma setup_readable_disarmed:
  "quick_focus_listeners (snd (onDOMContentLoaded (fresh_page True f))) = []"
  by (simp add: onDOMContentLoaded_def setupQuickSearch_def setupFullSearch_def
        addEventListener_def fresh_page_def quick_focus_listeners_def)

text \<open>
  C9, as the code has it. On a page with the quick-search field, in the minified variant
  the first focus event on the field calls \<^verbatim>\<open>loadSearchIndex\<close> once and no later focus
  event calls it; in the readable variant no focus event calls it, and the handler of
  \<^verbatim>\<open>DOMContentLoaded\<close> calls it instead, which the minified one does not.
\<close>

theorem focus_load_by_variant:
  "focus_loads (run_events evs (snd (onDOMContentLoaded_min (fresh_page True f))))
     = (if focus_count evs = 0 then [] else 1 # replicate (focus_count evs - 1) 0)
   \<and> focus_loads (run_events evs (snd (onDOMContentLoaded (fresh_page True f))))
     = replicate (focus_count evs) 0
   \<and> fst (onDOMContentLoaded (fresh_page True f)) = [LoadSearchIndex]
   \<and> fst (onDOMContentLoaded_min (fresh_page True f)) = []"
  using armed_focus_loads [OF setup_min_armed] disarmed_focus_loads [OF setup_readable_disarmed]
  by (simp add: onDOMContentLoaded_def onDOMContentLoaded_min_def)

text \<open>
  In the readable variant the first focus event on the quick-search field runs no handler:
  \<^verbatim>\<open>loadSearchIndex\<close> is not called.
\<close>

theorem readable_focus_does_not_load:
  "run_events [Focus QuickSearch] (snd (onDOMContentLoaded (fresh_page True True)))
     = [(Focus QuickSearch, [])]
   \<and> focus_loads (run_events [Focus QuickSearch] (snd (onDOMContentLoaded (fresh_page True True)))) = [0]"
  by code_simp

theorem focus_load_by_variant_witness:
  "focus_loads (run_events [Input QuickSearch ''ma'', Focus QuickSearch, TimerFired True, Focus QuickSearch]
                  (snd (onDOMContentLoaded_min (fresh_page True True)))) = [1, 0]
   \<and> focus_loads (run_events [Input QuickSearch ''ma'', Focus QuickSearch, TimerFired True, Focus QuickSearch]
                  (snd (onDOMContentLoaded (fresh_page True True)))) = [0, 0]"
  using focus_load_by_variant [of "[Input QuickSearch ''ma'', Focus QuickSearch, TimerFired True, Focus QuickSearch]" True]
  by (simp add: focus_count_def)

end
